theory Spec2Isabelle
  imports Main "HOL-Library.Char_ord" "HOL-Library.List_Lexorder" "HOL-Library.AList"
    "HOL-Library.Multiset"
begin

section \<open>MyChat server (server.js): data model\<close>

text \<open>
  The server keeps two pieces of global state: the database \<open>db\<close> (the parsed content of
  db.json, an object \<open>{users, chats}\<close>) and the connection registry \<open>clients\<close>
  (a JavaScript \<open>Map\<close> from user code to WebSocket). JavaScript objects and Maps are
  modelled as association lists in enumeration order, looked up with \<open>map_of\<close>.
  JavaScript strings are modelled as \<open>string\<close>; the payload fields read by the handlers
  are taken to be strings. A WebSocket object is identified by a number, since the code
  compares sockets only by identity (\<open>===\<close>).
\<close>

datatype conn = Conn nat

record user =
  password :: string
  userCode :: string
  contacts :: "string list"

record message =
  msg_id :: string
  sender :: string
  receiver :: string
  msg_text :: string
  timestamp :: string
  read :: bool

record database =
  users :: "(string \<times> user) list"
  chats :: "(string \<times> message list) list"

record server_state =
  db :: database
  clients :: "(string \<times> conn) list"

record contactDetail =
  cd_username :: "string option"
  cd_userCode :: string
  cd_isOnline :: bool
  cd_unreadCount :: nat

text \<open>
  Everything the server writes to a socket is \<open>JSON.stringify({type, payload})\<close>.
  An envelope keeps the type string as the source writes it, with a typed payload.
\<close>

datatype payload =
    PError string
  | PSignup string
  | PLogin string string
  | PContacts "contactDetail list"
  | PChat "message list" string bool
  | PMessage message
  | PTyping string
  | PReceipt string string
  | POnline string bool

datatype envelope = Envelope string payload

text \<open>
  The observable effects of a handler, in the order in which the source performs them:
  \<open>saveDatabase()\<close> writes the whole database, \<open>ws.send\<close> writes to one socket.
  \<open>saveDatabase\<close> catches and logs a failed write, so a handler never sees it.
\<close>

datatype effect = Persist database | Send conn envelope

datatype exn = TypeError

section \<open>JavaScript objects, strings and arrays\<close>

text \<open>
  Own string keys of an ordinary object are enumerated with the array indices first, in
  ascending numeric order, then the other keys in creation order. An array index is the
  canonical decimal form of an integer below \<open>2^32 - 1\<close>.
\<close>

definition isDigit :: "char \<Rightarrow> bool" where
  "isDigit c \<longleftrightarrow> c \<in> set ''0123456789''"

definition digitValue :: "char \<Rightarrow> nat" where
  "digitValue c = (case map_of (zip ''0123456789'' [0, 1, 2, 3, 4, 5, 6, 7, 8, 9]) c of
     Some n \<Rightarrow> n | None \<Rightarrow> 0)"

definition decimalValue :: "string \<Rightarrow> nat" where
  "decimalValue k = foldl (\<lambda>n c. 10 * n + digitValue c) 0 k"

definition isArrayIndex :: "string \<Rightarrow> bool" where
  "isArrayIndex k \<longleftrightarrow>
     k \<noteq> [] \<and> list_all isDigit k \<and> (k = ''0'' \<or> hd k \<noteq> CHR ''0'') \<and>
     length k \<le> 10 \<and> decimalValue k < 4294967295"

fun insertKey :: "string \<Rightarrow> 'v \<Rightarrow> (string \<times> 'v) list \<Rightarrow> (string \<times> 'v) list" where
  "insertKey k v [] = [(k, v)]"
| "insertKey k v ((k', v') # rest) =
     (if isArrayIndex k \<and> (\<not> isArrayIndex k' \<or> decimalValue k < decimalValue k')
      then (k, v) # (k', v') # rest
      else (k', v') # insertKey k v rest)"

text \<open>\<open>obj[k] = v\<close>: an existing own key keeps its place, a new one is created.\<close>

definition setProperty :: "string \<Rightarrow> 'v \<Rightarrow> (string \<times> 'v) list \<Rightarrow> (string \<times> 'v) list" where
  "setProperty k v obj =
     (if k \<in> fst ` set obj then AList.update k v obj else insertKey k v obj)"

text \<open>
  The property names every object inherits from \<open>Object.prototype\<close>. A read of
  \<open>obj[k]\<close> for one of them yields a (truthy) function or object when \<open>k\<close> is not an
  own key.
\<close>

definition objectPrototypeKeys :: "string list" where
  "objectPrototypeKeys =
     [''constructor'', ''__defineGetter__'', ''__defineSetter__'', ''hasOwnProperty'',
      ''__lookupGetter__'', ''__lookupSetter__'', ''isPrototypeOf'',
      ''propertyIsEnumerable'', ''toString'', ''valueOf'', ''__proto__'',
      ''toLocaleString'']"

text \<open>\<open>s.substring(a, b)\<close> for non-negative integers: the arguments are swapped when
  out of order and clamped to the length.\<close>

definition substring :: "nat \<Rightarrow> nat \<Rightarrow> string \<Rightarrow> string" where
  "substring a b s = (let lo = min a b; hi = max a b in take (hi - lo) (drop lo s))"

text \<open>\<open>toUpperCase\<close> on the characters a radix-36 rendering can contain.\<close>

definition toUpperCaseChar :: "char \<Rightarrow> char" where
  "toUpperCaseChar c =
     (case map_of (zip ''abcdefghijklmnopqrstuvwxyz'' ''ABCDEFGHIJKLMNOPQRSTUVWXYZ'') c of
        Some u \<Rightarrow> u | None \<Rightarrow> c)"

definition toUpperCase :: "string \<Rightarrow> string" where
  "toUpperCase s = map toUpperCaseChar s"

section \<open>Utility functions\<close>

text \<open>
  \<open>getChatKey\<close>: \<open>[userCode1, userCode2].sort().join("-")\<close>. The default sort compares
  the strings code unit by code unit and is stable, so the pair is swapped exactly when
  the second is strictly smaller.
\<close>

definition getChatKey :: "string \<Rightarrow> string \<Rightarrow> string" where
  "getChatKey userCode1 userCode2 =
     (if userCode2 < userCode1 then userCode2 @ ''-'' @ userCode1
      else userCode1 @ ''-'' @ userCode2)"

text \<open>
  \<open>generateUserCode\<close>. The argument \<open>rnd\<close> gives the successive values of
  \<open>Math.random().toString(36)\<close>; \<open>i\<close> counts the draws made so far. The do-while loop
  has no bound, so the result is an option: \<open>None\<close> is the loop that never leaves.
\<close>

partial_function (option) generateUserCode_loop ::
  "(nat \<Rightarrow> string) \<Rightarrow> string list \<Rightarrow> nat \<Rightarrow> string option" where
  "generateUserCode_loop rnd existingCodes i =
     (let code = toUpperCase (substring 2 8 (rnd i))
      in if code \<in> set existingCodes then generateUserCode_loop rnd existingCodes (Suc i)
         else Some code)"

declare generateUserCode_loop.simps [code]

definition generateUserCode :: "(nat \<Rightarrow> string) \<Rightarrow> database \<Rightarrow> string option" where
  "generateUserCode rnd d =
     generateUserCode_loop rnd (map (\<lambda>(k, u). userCode u) (users d)) 0"

text \<open>\<open>Object.keys(db.users).find((u) => db.users[u].userCode === code)\<close>.\<close>

definition findUsername :: "database \<Rightarrow> string \<Rightarrow> string option" where
  "findUsername d code =
     List.find (\<lambda>u. case map_of (users d) u of Some usr \<Rightarrow> userCode usr = code | None \<Rightarrow> False)
       (map fst (users d))"

text \<open>
  \<open>db.users[username]\<close> where \<open>username\<close> is the result of such a \<open>find\<close>: when
  nothing was found the key is \<open>undefined\<close>, which reads the property named
  "undefined".
\<close>

definition lookupUser :: "database \<Rightarrow> string option \<Rightarrow> user option" where
  "lookupUser d username =
     map_of (users d) (case username of Some u \<Rightarrow> u | None \<Rightarrow> ''undefined'')"

section \<open>Helper functions for sending data\<close>

text \<open>\<open>db.chats[chatKey] || []\<close>.\<close>

definition chatOf :: "database \<Rightarrow> string \<Rightarrow> message list" where
  "chatOf d chatKey = (case map_of (chats d) chatKey of Some c \<Rightarrow> c | None \<Rightarrow> [])"

definition unreadCount :: "database \<Rightarrow> string \<Rightarrow> string \<Rightarrow> nat" where
  "unreadCount d code contactCode =
     (let chatKey = getChatKey code contactCode;
          chat = chatOf d chatKey
      in length (filter (\<lambda>m. receiver m = code \<and> \<not> read m) chat))"

definition contactDetailOf :: "server_state \<Rightarrow> string \<Rightarrow> string \<Rightarrow> contactDetail option" where
  "contactDetailOf s code contactCode =
     (let contactUsername = findUsername (db s) contactCode
      in case lookupUser (db s) contactUsername of
           None \<Rightarrow> None
         | Some contact \<Rightarrow>
             Some \<lparr> cd_username = contactUsername,
                    cd_userCode = userCode contact,
                    cd_isOnline = (map_of (clients s) (userCode contact) \<noteq> None),
                    cd_unreadCount = unreadCount (db s) code contactCode \<rparr>)"

definition sendContactListUpdate :: "server_state \<Rightarrow> string \<Rightarrow> effect list" where
  "sendContactListUpdate s code =
     (case map_of (clients s) code of
        None \<Rightarrow> []
      | Some ws \<Rightarrow>
          (case lookupUser (db s) (findUsername (db s) code) of
             None \<Rightarrow> []
           | Some usr \<Rightarrow>
               [Send ws (Envelope ''contactList''
                  (PContacts (List.map_filter (contactDetailOf s code) (contacts usr))))]))"

definition sendLoginSuccess :: "server_state \<Rightarrow> conn \<Rightarrow> string \<Rightarrow> string \<Rightarrow> effect list" where
  "sendLoginSuccess s ws username code =
     Send ws (Envelope ''loginSuccess'' (PLogin username code)) # sendContactListUpdate s code"

text \<open>
  \<open>broadcastOnlineStatus\<close>. The test \<open>if (!username) return\<close> leaves for
  \<open>undefined\<close> and also for the empty string, so nothing is broadcast for the account
  whose username is empty.
\<close>

definition broadcastOnlineStatus :: "server_state \<Rightarrow> string \<Rightarrow> bool \<Rightarrow> effect list" where
  "broadcastOnlineStatus s code isOnline =
     (case findUsername (db s) code of
        None \<Rightarrow> []
      | Some username \<Rightarrow>
          if username = [] then []
          else (case map_of (users (db s)) username of
             None \<Rightarrow> []
           | Some usr \<Rightarrow>
               concat (map (\<lambda>contactCode.
                 case map_of (clients s) contactCode of
                   None \<Rightarrow> []
                 | Some contactWs \<Rightarrow>
                     Send contactWs (Envelope ''onlineStatus'' (POnline code isOnline))
                       # sendContactListUpdate s contactCode) (contacts usr))))"

section \<open>Message handlers\<close>

text \<open>
  Each handler takes the server state, the socket \<open>ws\<close> the request came in on and the
  payload fields, and returns the new state with the effects it performed, in order.
\<close>

definition errorReply :: "conn \<Rightarrow> string \<Rightarrow> effect" where
  "errorReply ws msg = Send ws (Envelope ''error'' (PError msg))"

text \<open>
  \<open>handleSignup\<close>. The test \<open>db.users[username]\<close> is truthy for an own key and also
  for a name inherited from \<open>Object.prototype\<close>.
\<close>

definition handleSignup ::
  "(nat \<Rightarrow> string) \<Rightarrow> server_state \<Rightarrow> conn \<Rightarrow> string \<Rightarrow> string
     \<Rightarrow> (server_state \<times> effect list) option" where
  "handleSignup rnd s ws username pw =
     (if map_of (users (db s)) username \<noteq> None \<or> username \<in> set objectPrototypeKeys
      then Some (s, [errorReply ws ''Username already exists.''])
      else case generateUserCode rnd (db s) of
             None \<Rightarrow> None
           | Some code \<Rightarrow>
               (let d = (db s)\<lparr> users :=
                          setProperty username
                            \<lparr> password = pw, userCode = code, contacts = [] \<rparr>
                            (users (db s)) \<rparr>
                in Some (s\<lparr> db := d \<rparr>,
                         [Persist d, Send ws (Envelope ''signupSuccess'' (PSignup code))])))"

text \<open>
  \<open>handleLogin\<close>. For a name that is not an own key, \<open>user\<close> is either
  \<open>undefined\<close> or an inherited function whose \<open>password\<close> is \<open>undefined\<close>; a
  string password differs from it, so both end in the error reply. The field
  \<open>ws.userCode\<close> that login and reconnect set is never read by the server and is left
  out.
\<close>

definition handleLogin ::
  "server_state \<Rightarrow> conn \<Rightarrow> string \<Rightarrow> string \<Rightarrow> server_state \<times> effect list" where
  "handleLogin s ws username pw =
     (case map_of (users (db s)) username of
        None \<Rightarrow> (s, [errorReply ws ''Invalid username or password.''])
      | Some usr \<Rightarrow>
          if password usr \<noteq> pw then (s, [errorReply ws ''Invalid username or password.''])
          else (let s' = s\<lparr> clients := AList.update (userCode usr) ws (clients s) \<rparr>
                in (s', sendLoginSuccess s' ws username (userCode usr)
                          @ broadcastOnlineStatus s' (userCode usr) True)))"

definition handleReconnect ::
  "server_state \<Rightarrow> conn \<Rightarrow> string \<Rightarrow> string \<Rightarrow> server_state \<times> effect list" where
  "handleReconnect s ws username code =
     (case map_of (users (db s)) username of
        None \<Rightarrow> (s, [errorReply ws ''Reconnect failed. Please log in again.''])
      | Some usr \<Rightarrow>
          if userCode usr \<noteq> code
          then (s, [errorReply ws ''Reconnect failed. Please log in again.''])
          else (let s' = s\<lparr> clients := AList.update code ws (clients s) \<rparr>
                in (s', sendLoginSuccess s' ws username code
                          @ broadcastOnlineStatus s' code True)))"

text \<open>
  \<open>handleAddContact\<close>. The test \<open>if (!targetUsername)\<close> is true when no account has
  the target code and also when the account found has the empty username (signup
  accepts it). When the adder's code matches no account, \<open>adderUsername\<close> is
  \<open>undefined\<close> and \<open>db.users[adderUsername]\<close> reads the key "undefined"; if there
  is no such account, reading \<open>.contacts\<close> throws a TypeError before anything is
  changed.
\<close>

definition pushContact :: "string \<Rightarrow> string \<Rightarrow> (string \<times> user) list \<Rightarrow> (string \<times> user) list" where
  "pushContact username code us =
     (case map_of us username of
        None \<Rightarrow> us
      | Some usr \<Rightarrow>
          if code \<in> set (contacts usr) then us
          else AList.update username (usr\<lparr> contacts := contacts usr @ [code] \<rparr>) us)"

definition handleAddContact ::
  "server_state \<Rightarrow> conn \<Rightarrow> string \<Rightarrow> string \<Rightarrow> exn + (server_state \<times> effect list)" where
  "handleAddContact s ws adderUserCode targetUserCode =
     (let adderUsername = findUsername (db s) adderUserCode;
          targetUsername = findUsername (db s) targetUserCode
      in case targetUsername of
           None \<Rightarrow> Inr (s, [errorReply ws ''User with that code does not exist.''])
         | Some target \<Rightarrow>
             if target = []
             then Inr (s, [errorReply ws ''User with that code does not exist.''])
             else if adderUserCode = targetUserCode
             then Inr (s, [errorReply ws ''You cannot add yourself as a contact.''])
             else (case lookupUser (db s) adderUsername of
                     None \<Rightarrow> Inl TypeError
                   | Some _ \<Rightarrow>
                       (let adder = (case adderUsername of Some u \<Rightarrow> u | None \<Rightarrow> ''undefined'');
                            us1 = pushContact adder targetUserCode (users (db s));
                            us2 = pushContact target adderUserCode us1;
                            d = (db s)\<lparr> users := us2 \<rparr>;
                            s' = s\<lparr> db := d \<rparr>
                        in Inr (s', Persist d # sendContactListUpdate s' adderUserCode
                                  @ (case map_of (clients s') targetUserCode of
                                       None \<Rightarrow> []
                                     | Some targetWs \<Rightarrow>
                                         sendContactListUpdate s' targetUserCode)))))"

definition handleGetChat ::
  "server_state \<Rightarrow> conn \<Rightarrow> string \<Rightarrow> string \<Rightarrow> server_state \<times> effect list" where
  "handleGetChat s ws currentUserCode targetUserCode =
     (let chatKey = getChatKey currentUserCode targetUserCode;
          messages = chatOf (db s) chatKey;
          isOnline = (map_of (clients s) targetUserCode \<noteq> None)
      in (s, [Send ws (Envelope ''chatHistory'' (PChat messages targetUserCode isOnline))]))"

text \<open>
  \<open>handleSendMessage\<close>. \<open>uuid\<close> is the value of \<open>uuidv4()\<close> and \<open>now\<close> the value of
  \<open>new Date().toISOString()\<close> at the call. A chat key contains "-", so it is never the
  name of an inherited property and \<open>db.chats[chatKey]\<close> reads own keys only.
\<close>

definition handleSendMessage ::
  "string \<Rightarrow> string \<Rightarrow> server_state \<Rightarrow> conn \<Rightarrow> string \<Rightarrow> string \<Rightarrow> string
     \<Rightarrow> server_state \<times> effect list" where
  "handleSendMessage uuid now s ws sndr rcvr txt =
     (let msg = \<lparr> msg_id = uuid, sender = sndr, receiver = rcvr, msg_text = txt,
                  timestamp = now, read = False \<rparr>;
          chatKey = getChatKey sndr rcvr;
          chats1 = (case map_of (chats (db s)) chatKey of
                      None \<Rightarrow> setProperty chatKey [] (chats (db s))
                    | Some _ \<Rightarrow> chats (db s));
          chats2 = (case map_of chats1 chatKey of
                      None \<Rightarrow> chats1
                    | Some chat \<Rightarrow> AList.update chatKey (chat @ [msg]) chats1);
          d = (db s)\<lparr> chats := chats2 \<rparr>;
          s' = s\<lparr> db := d \<rparr>
      in (s', Persist d
               # (case map_of (clients s') rcvr of
                    None \<Rightarrow> []
                  | Some recipientWs \<Rightarrow> [Send recipientWs (Envelope ''newMessage'' (PMessage msg))])
               @ [Send ws (Envelope ''messageSent'' (PMessage msg))]))"

definition handleTyping :: "server_state \<Rightarrow> string \<Rightarrow> string \<Rightarrow> server_state \<times> effect list" where
  "handleTyping s typer rcvr =
     (case map_of (clients s) rcvr of
        None \<Rightarrow> (s, [])
      | Some recipientWs \<Rightarrow> (s, [Send recipientWs (Envelope ''typing'' (PTyping typer))]))"

text \<open>
  \<open>handleReadMessage\<close>. \<open>chat.find\<close> returns the first message with the id, and the
  assignment \<open>message.read = true\<close> changes that element of the array in place.
\<close>

fun markRead :: "string \<Rightarrow> message list \<Rightarrow> message list" where
  "markRead messageId [] = []"
| "markRead messageId (m # ms) =
     (if msg_id m = messageId then m\<lparr> read := True \<rparr> # ms else m # markRead messageId ms)"

definition handleReadMessage ::
  "server_state \<Rightarrow> string \<Rightarrow> string \<Rightarrow> string \<Rightarrow> server_state \<times> effect list" where
  "handleReadMessage s reader messageId messageSender =
     (let chatKey = getChatKey reader messageSender
      in case map_of (chats (db s)) chatKey of
           None \<Rightarrow> (s, [])
         | Some chat \<Rightarrow>
             (case List.find (\<lambda>m. msg_id m = messageId) chat of
                None \<Rightarrow> (s, [])
              | Some m \<Rightarrow>
                  if read m then (s, [])
                  else (let d = (db s)\<lparr> chats :=
                                  AList.update chatKey (markRead messageId chat) (chats (db s)) \<rparr>;
                            s' = s\<lparr> db := d \<rparr>
                        in (s', Persist d
                                 # (case map_of (clients s') messageSender of
                                      None \<Rightarrow> []
                                    | Some senderWs \<Rightarrow>
                                        [Send senderWs
                                           (Envelope ''readReceipt''
                                              (PReceipt messageId reader))])))))"

section \<open>WebSocket events\<close>

text \<open>
  A parsed request with a known type and its payload fields, a request of another type,
  or a frame on which \<open>JSON.parse\<close> or the destructuring of a missing payload throws.
  The values the handlers get from their environment come with the event.
\<close>

datatype request =
    Signup string string
  | Login string string
  | AddContact string string
  | GetChat string string
  | SendMessage string string string
  | Typing string string
  | ReadMessage string string string
  | Reconnect string string
  | UnknownType string
  | Unparsable

record environ =
  uuidv4 :: string
  isoNow :: string
  randomBase36 :: "nat \<Rightarrow> string"

text \<open>
  \<open>handleMessage\<close> looks the type up in a plain object of handlers. A type that is no
  own key is logged and dropped, unless it names an inherited property: \<open>Object\<close>
  ("constructor") and \<open>Object.prototype.toString\<close> accept the call and do nothing
  visible, the other inherited functions throw on their undefined receiver, and
  "__proto__" is not a function.
\<close>

definition handleMessage ::
  "environ \<Rightarrow> server_state \<Rightarrow> conn \<Rightarrow> request
     \<Rightarrow> (exn + (server_state \<times> effect list)) option" where
  "handleMessage env s ws req =
     (case req of
        Signup username pw \<Rightarrow> map_option Inr (handleSignup (randomBase36 env) s ws username pw)
      | Login username pw \<Rightarrow> Some (Inr (handleLogin s ws username pw))
      | AddContact adder target \<Rightarrow> Some (handleAddContact s ws adder target)
      | GetChat cur target \<Rightarrow> Some (Inr (handleGetChat s ws cur target))
      | SendMessage sndr rcvr txt \<Rightarrow>
          Some (Inr (handleSendMessage (uuidv4 env) (isoNow env) s ws sndr rcvr txt))
      | Typing typer rcvr \<Rightarrow> Some (Inr (handleTyping s typer rcvr))
      | ReadMessage reader messageId messageSender \<Rightarrow>
          Some (Inr (handleReadMessage s reader messageId messageSender))
      | Reconnect username code \<Rightarrow> Some (Inr (handleReconnect s ws username code))
      | UnknownType t \<Rightarrow>
          if t \<in> set objectPrototypeKeys \<and> t \<noteq> ''constructor'' \<and> t \<noteq> ''toString''
          then Some (Inl TypeError)
          else Some (Inr (s, []))
      | Unparsable \<Rightarrow> Some (Inl TypeError))"

text \<open>
  \<open>ws.on("message")\<close>: whatever is thrown while parsing or handling is caught and
  answered with the generic error envelope.
\<close>

definition onMessage ::
  "environ \<Rightarrow> server_state \<Rightarrow> conn \<Rightarrow> request \<Rightarrow> (server_state \<times> effect list) option" where
  "onMessage env s ws req =
     (case handleMessage env s ws req of
        None \<Rightarrow> None
      | Some (Inl _) \<Rightarrow> Some (s, [errorReply ws ''Invalid message format.''])
      | Some (Inr r) \<Rightarrow> Some r)"

text \<open>
  \<open>ws.on("close")\<close>: the loop over \<open>clients.entries()\<close> stops at the first entry
  whose socket is the closed one.
\<close>

definition onClose :: "server_state \<Rightarrow> conn \<Rightarrow> server_state \<times> effect list" where
  "onClose s ws =
     (case List.find (\<lambda>(code, clientWs). clientWs = ws) (clients s) of
        None \<Rightarrow> (s, [])
      | Some (code, clientWs) \<Rightarrow>
          (let s' = s\<lparr> clients := AList.delete code (clients s) \<rparr>
           in (s', broadcastOnlineStatus s' code False)))"

datatype event = Message environ conn request | Close conn

definition step :: "server_state \<Rightarrow> event \<Rightarrow> (server_state \<times> effect list) option" where
  "step s ev = (case ev of Message env ws req \<Rightarrow> onMessage env s ws req
                         | Close ws \<Rightarrow> Some (onClose s ws))"

fun run :: "server_state \<Rightarrow> event list \<Rightarrow> (server_state \<times> effect list) option" where
  "run s [] = Some (s, [])"
| "run s (ev # evs) =
     (case step s ev of
        None \<Rightarrow> None
      | Some (s', out) \<Rightarrow>
          (case run s' evs of None \<Rightarrow> None | Some (s'', out') \<Rightarrow> Some (s'', out @ out')))"




text \<open>The state after \<open>loadDatabase\<close> found no file: an empty database and no client.\<close>

definition initialState :: server_state where
  "initialState = \<lparr> db = \<lparr> users = [], chats = [] \<rparr>, clients = [] \<rparr>"

section \<open>Example states\<close>

text \<open>
  Two accounts that are contacts of each other, both online, with one unread message, and
  a third account without contacts that is offline.
\<close>

definition demoState :: server_state where
  "demoState =
     \<lparr> db = \<lparr> users =
                [(''alice'', \<lparr> password = ''pw1'', userCode = ''AAAAAA'', contacts = [''BBBBBB''] \<rparr>),
                 (''bob'', \<lparr> password = ''pw2'', userCode = ''BBBBBB'', contacts = [''AAAAAA''] \<rparr>),
                 (''carol'', \<lparr> password = ''pw3'', userCode = ''CCCCCC'', contacts = [] \<rparr>)],
              chats =
                [(''AAAAAA-BBBBBB'',
                  [\<lparr> msg_id = ''m1'', sender = ''AAAAAA'', receiver = ''BBBBBB'',
                     msg_text = ''hello'', timestamp = ''t1'', read = False \<rparr>])] \<rparr>,
       clients = [(''AAAAAA'', Conn 1), (''BBBBBB'', Conn 2)] \<rparr>"



text \<open>
  An account with the empty username (signup does not refuse it), online, and a second
  account; neither has contacts.
\<close>

definition emptyNameState :: server_state where
  "emptyNameState =
     \<lparr> db = \<lparr> users =
                [([], \<lparr> password = ''pw0'', userCode = ''EEEEEE'', contacts = [] \<rparr>),
                 (''bob'', \<lparr> password = ''pw2'', userCode = ''BBBBBB'', contacts = [] \<rparr>)],
              chats = [] \<rparr>,
       clients = [(''EEEEEE'', Conn 5)] \<rparr>"

section \<open>The browser client's message form\<close>

text \<open>
  \<open>String.prototype.trim\<close> removes white space and line terminators at both ends;
  these are the ones among the characters a \<open>string\<close> here can hold.
\<close>

definition isWhiteSpace :: "char \<Rightarrow> bool" where
  "isWhiteSpace c \<longleftrightarrow>
     c \<in> set [CHR 0x09, CHR 0x0A, CHR 0x0B, CHR 0x0C, CHR 0x0D, CHR 0x20, CHR 0xA0]"

definition trim :: "string \<Rightarrow> string" where
  "trim s = rev (dropWhile isWhiteSpace (rev (dropWhile isWhiteSpace s)))"

text \<open>
  The submit listener of the message form, with \<open>sendToServer\<close> inlined: the requests it
  puts on the socket, given whether the socket is open, the code of the logged-in user,
  the code of the active chat and the content of the input field.
\<close>

definition submitMessageForm ::
  "bool \<Rightarrow> string option \<Rightarrow> string option \<Rightarrow> string \<Rightarrow> request list" where
  "submitMessageForm wsOpen currentUser activeChat input =
     (let txt = trim input
      in case (currentUser, activeChat) of
           (Some me, Some peer) \<Rightarrow>
             if txt \<noteq> [] \<and> wsOpen then [SendMessage me peer txt] else []
         | _ \<Rightarrow> [])"

text \<open>What \<open>if (!contacts.includes(code)) contacts.push(code)\<close> does to one account.\<close>

definition addIfAbsent :: "string \<Rightarrow> user \<Rightarrow> user" where
  "addIfAbsent code usr =
     (if code \<in> set (contacts usr) then usr else usr\<lparr> contacts := contacts usr @ [code] \<rparr>)"

text \<open>
  An environment for the example runs: the first draw of \<open>Math.random().toString(36)\<close>
  is "0.4fzyo82mvyr", every later one "0.9x2k7q1abc".
\<close>

definition demoEnv :: environ where
  "demoEnv = \<lparr> uuidv4 = ''m1'', isoNow = ''t1'',
               randomBase36 = (\<lambda>i. if i = 0 then ''0.4fzyo82mvyr'' else ''0.9x2k7q1abc'') \<rparr>"

text \<open>Two signups, then both accounts log in over the same socket.\<close>

definition twoLoginsOneSocket :: "event list" where
  "twoLoginsOneSocket =
     [Message demoEnv (Conn 0) (Signup ''alice'' ''pw1''),
      Message demoEnv (Conn 0) (Signup ''bob'' ''pw2''),
      Message demoEnv (Conn 1) (Login ''alice'' ''pw1''),
      Message demoEnv (Conn 1) (Login ''bob'' ''pw2'')]"



section \<open>Properties of the object model\<close>

lemma map_of_insertKey:
  "map_of (insertKey k v obj) = (map_of obj)(k \<mapsto> v)" if "k \<notin> fst ` set obj"
  using that by (induction obj) (auto simp: fun_upd_twist)

lemma map_of_setProperty: "map_of (setProperty k v obj) = (map_of obj)(k \<mapsto> v)"
  by (simp add: setProperty_def map_of_insertKey update_conv')


section \<open>Sending a message\<close>

lemma handleSendMessage_chats:
  "map_of (chats (db (fst (handleSendMessage uuid now s ws A B t)))) =
     (map_of (chats (db s)))(getChatKey A B \<mapsto>
           chatOf (db s) (getChatKey A B) @ [\<lparr> msg_id = uuid, sender = A, receiver = B, msg_text = t,
                  timestamp = now, read = False \<rparr>])"
  by (cases "map_of (chats (db s)) (getChatKey A B)")
     (simp_all add: handleSendMessage_def Let_def chatOf_def map_of_setProperty update_conv')

lemma handleSendMessage_users:
  "users (db (fst (handleSendMessage uuid now s ws A B t))) = users (db s)"
  by (simp add: handleSendMessage_def Let_def)

lemma handleSendMessage_clients:
  "clients (fst (handleSendMessage uuid now s ws A B t)) = clients s"
  by (simp add: handleSendMessage_def Let_def)

lemma handleSendMessage_effects:
  "snd (handleSendMessage uuid now s ws A B t) =
     Persist (db (fst (handleSendMessage uuid now s ws A B t)))
       # (case map_of (clients s) B of
            None \<Rightarrow> []
          | Some recipientWs \<Rightarrow> [Send recipientWs (Envelope ''newMessage'' (PMessage \<lparr> msg_id = uuid, sender = A, receiver = B, msg_text = t,
                  timestamp = now, read = False \<rparr>))])
       @ [Send ws (Envelope ''messageSent'' (PMessage \<lparr> msg_id = uuid, sender = A, receiver = B, msg_text = t,
                  timestamp = now, read = False \<rparr>))]"
  by (simp add: handleSendMessage_def Let_def)




lemma handleMessage_SendMessage:
  "handleMessage env s ws (SendMessage A B t) =
     Some (Inr (handleSendMessage (uuidv4 env) (isoNow env) s ws A B t))"
  by (simp add: handleMessage_def)

lemma onMessage_SendMessage:
  "onMessage env s ws (SendMessage A B t) =
     Some (handleSendMessage (uuidv4 env) (isoNow env) s ws A B t)"
  by (simp add: onMessage_def handleMessage_def)

lemma handleSendMessage_no_error:
  "Send ws' (Envelope ''error'' p) \<notin> set (snd (handleSendMessage uuid now s ws A B t))"
  by (simp add: handleSendMessage_effects split: option.split)

text \<open>
  C9. sendMessage does not validate its sender or receiver code. For every state, socket
  and payload (codes of no account, codes that are not contacts, equal codes, a sender
  code other than the one bound to the socket), the dispatcher reaches the handler, which
  neither throws nor answers with an error envelope: it creates the conversation if it
  is absent, appends the message, writes the store first and ends with the
  \<open>messageSent\<close> acknowledgement to the submitting socket.
\<close>

theorem sendMessage_validates_no_codes:
  "let msg = \<lparr> msg_id = uuidv4 env, sender = A, receiver = B, msg_text = t,
                timestamp = isoNow env, read = False \<rparr>;
       r = handleSendMessage (uuidv4 env) (isoNow env) s ws A B t
   in handleMessage env s ws (SendMessage A B t) = Some (Inr r)
    \<and> onMessage env s ws (SendMessage A B t) = Some r
    \<and> Send ws' (Envelope ''error'' p) \<notin> set (snd r)
    \<and> (map_of (chats (db s)) (getChatKey A B) = None \<longrightarrow>
         map_of (chats (db (fst r))) (getChatKey A B) = Some [msg])
    \<and> map_of (chats (db (fst r))) (getChatKey A B) = Some (chatOf (db s) (getChatKey A B) @ [msg])
    \<and> hd (snd r) = Persist (db (fst r))
    \<and> last (snd r) = Send ws (Envelope ''messageSent'' (PMessage msg))"
  unfolding Let_def
  by (simp add: handleMessage_SendMessage onMessage_SendMessage handleSendMessage_no_error
      handleSendMessage_chats handleSendMessage_effects chatOf_def)

theorem sendMessage_validates_no_codes_witness:
  "map_of (chats (db initialState)) (getChatKey ''ZZZZZZ'' ''ZZZZZZ'') = None
   \<and> onMessage \<lparr> uuidv4 = ''m1'', isoNow = ''t1'', randomBase36 = (\<lambda>i. ''0.i'') \<rparr>
        initialState (Conn 7) (SendMessage ''ZZZZZZ'' ''ZZZZZZ'' ''hi'') =
      Some (handleSendMessage ''m1'' ''t1'' initialState (Conn 7) ''ZZZZZZ'' ''ZZZZZZ'' ''hi'')
   \<and> map_of (chats (db (fst (handleSendMessage ''m1'' ''t1'' initialState (Conn 7)
          ''ZZZZZZ'' ''ZZZZZZ'' ''hi'')))) ''ZZZZZZ-ZZZZZZ'' =
      Some [\<lparr> msg_id = ''m1'', sender = ''ZZZZZZ'', receiver = ''ZZZZZZ'', msg_text = ''hi'',
               timestamp = ''t1'', read = False \<rparr>]
   \<and> last (snd (handleSendMessage ''m1'' ''t1'' initialState (Conn 7) ''ZZZZZZ'' ''ZZZZZZ'' ''hi'')) =
      Send (Conn 7) (Envelope ''messageSent'' (PMessage
        \<lparr> msg_id = ''m1'', sender = ''ZZZZZZ'', receiver = ''ZZZZZZ'', msg_text = ''hi'',
          timestamp = ''t1'', read = False \<rparr>))"
proof -
  have key: "getChatKey ''ZZZZZZ'' ''ZZZZZZ'' = ''ZZZZZZ-ZZZZZZ''"
    by (simp add: getChatKey_def)
  have absent: "map_of (chats (db initialState)) ''ZZZZZZ-ZZZZZZ'' = None"
    by (simp add: initialState_def)
  show ?thesis
    using sendMessage_validates_no_codes
      [of "\<lparr> uuidv4 = ''m1'', isoNow = ''t1'', randomBase36 = (\<lambda>i. ''0.i'') \<rparr>"
          "''ZZZZZZ''" "''ZZZZZZ''" "''hi''" initialState "Conn 7", unfolded Let_def key]
      absent
    by (simp add: key)
qed

section \<open>Sending an empty text\<close>

text \<open>
  The claim C8 as written (a sendMessage with empty text is dropped: nothing stored,
  nothing written, nothing sent) fails on the server: on the initial state the handler
  stores the message with the empty text, writes the store and acknowledges.
\<close>

theorem sendMessage_empty_text_counterexample:
  "handleSendMessage ''m1'' ''t1'' initialState (Conn 1) ''AAAAAA'' ''BBBBBB'' [] \<noteq> (initialState, [])
   \<and> handleSendMessage ''m1'' ''t1'' initialState (Conn 1) ''AAAAAA'' ''BBBBBB'' [] =
       (\<lparr> db = \<lparr> users = [],
                 chats = [(''AAAAAA-BBBBBB'',
                    [\<lparr> msg_id = ''m1'', sender = ''AAAAAA'', receiver = ''BBBBBB'',
                       msg_text = [], timestamp = ''t1'', read = False \<rparr>])] \<rparr>,
           clients = [] \<rparr>,
        [Persist \<lparr> users = [],
                   chats = [(''AAAAAA-BBBBBB'',
                     [\<lparr> msg_id = ''m1'', sender = ''AAAAAA'', receiver = ''BBBBBB'',
                        msg_text = [], timestamp = ''t1'', read = False \<rparr>])] \<rparr>,
         Send (Conn 1) (Envelope ''messageSent'' (PMessage
           \<lparr> msg_id = ''m1'', sender = ''AAAAAA'', receiver = ''BBBBBB'',
             msg_text = [], timestamp = ''t1'', read = False \<rparr>))])"
  by (simp add: handleSendMessage_def initialState_def getChatKey_def setProperty_def
      isArrayIndex_def isDigit_def Let_def)

text \<open>
  C8, amended. The server does not look at the text: a sendMessage with empty text is
  handled like any other (the message is built with the empty text, appended to the
  canonical conversation, the store is written, \<open>newMessage\<close> goes to the receiver if
  online and \<open>messageSent\<close> to the sender). The only guard against an empty text is in
  the client's message form, which trims the input and puts no sendMessage with an
  empty text on the socket.
\<close>

theorem sendMessage_empty_text_handled:
  "let msg = \<lparr> msg_id = uuid, sender = A, receiver = B, msg_text = [], timestamp = now,
                read = False \<rparr>;
       r = handleSendMessage uuid now s ws A B []
   in snd r =
        Persist (db (fst r))
          # (case map_of (clients s) B of
               None \<Rightarrow> []
             | Some recipientWs \<Rightarrow> [Send recipientWs (Envelope ''newMessage'' (PMessage msg))])
          @ [Send ws (Envelope ''messageSent'' (PMessage msg))]
    \<and> map_of (chats (db (fst r))) (getChatKey A B) = Some (chatOf (db s) (getChatKey A B) @ [msg])
    \<and> onMessage env s ws (SendMessage A B []) =
        Some (handleSendMessage (uuidv4 env) (isoNow env) s ws A B [])
    \<and> SendMessage me peer [] \<notin> set (submitMessageForm wsOpen currentUser activeChat input)"
proof -
  have client: "SendMessage me peer [] \<notin> set (submitMessageForm wsOpen currentUser activeChat input)"
    by (auto simp: submitMessageForm_def Let_def split: option.splits)
  show ?thesis
    unfolding Let_def
    by (simp add: handleSendMessage_effects handleSendMessage_chats onMessage_SendMessage client)
qed

lemma submitMessageForm_blank: "submitMessageForm True (Some ''AAAAAA'') (Some ''BBBBBB'') ''  '' = []"
  by (simp add: submitMessageForm_def trim_def isWhiteSpace_def)

lemma submitMessageForm_hi: "submitMessageForm True (Some ''AAAAAA'') (Some ''BBBBBB'') '' hi '' = [SendMessage ''AAAAAA'' ''BBBBBB'' ''hi'']"
  by (simp add: submitMessageForm_def trim_def isWhiteSpace_def)

section \<open>Reading a message\<close>

lemma handleReadMessage_no_chat:
  "map_of (chats (db s)) (getChatKey R S) = None \<Longrightarrow> handleReadMessage s R M S = (s, [])"
  by (simp add: handleReadMessage_def)

lemma find_msg_id_None: "M \<notin> msg_id ` set chat \<Longrightarrow> List.find (\<lambda>m. msg_id m = M) chat = None"
  by (auto simp: find_None_iff)

lemma handleReadMessage_no_message:
  "map_of (chats (db s)) (getChatKey R S) = Some chat \<Longrightarrow> M \<notin> msg_id ` set chat
     \<Longrightarrow> handleReadMessage s R M S = (s, [])"
  by (simp add: handleReadMessage_def find_msg_id_None)

lemma onMessage_ReadMessage:
  "onMessage env s ws (ReadMessage R M S) = Some (handleReadMessage s R M S)"
  by (simp add: onMessage_def handleMessage_def)

text \<open>
  C10. A readMessage whose canonical conversation for (reader, sender) does not exist, or
  whose message id matches no message of that conversation, is a silent no-op: the state
  is unchanged and there is no effect at all (no write of the store, no \<open>readReceipt\<close>,
  no error reply to the caller).
\<close>

theorem readMessage_unknown_is_noop:
  assumes "map_of (chats (db s)) (getChatKey R S) = None
           \<or> (\<exists>chat. map_of (chats (db s)) (getChatKey R S) = Some chat \<and> M \<notin> msg_id ` set chat)"
  shows "handleReadMessage s R M S = (s, []) \<and> onMessage env s ws (ReadMessage R M S) = Some (s, [])"
  using assms
  by (auto simp: onMessage_ReadMessage handleReadMessage_no_chat handleReadMessage_no_message)

theorem readMessage_unknown_is_noop_witness:
  "map_of (chats (db demoState)) (getChatKey ''BBBBBB'' ''CCCCCC'') = None
   \<and> handleReadMessage demoState ''BBBBBB'' ''m1'' ''CCCCCC'' = (demoState, [])
   \<and> onMessage \<lparr> uuidv4 = ''m9'', isoNow = ''t9'', randomBase36 = (\<lambda>i. ''0.i'') \<rparr> demoState (Conn 2)
        (ReadMessage ''BBBBBB'' ''m1'' ''CCCCCC'') = Some (demoState, [])
   \<and> map_of (chats (db demoState)) (getChatKey ''BBBBBB'' ''AAAAAA'') =
        Some [\<lparr> msg_id = ''m1'', sender = ''AAAAAA'', receiver = ''BBBBBB'',
                 msg_text = ''hello'', timestamp = ''t1'', read = False \<rparr>]
   \<and> handleReadMessage demoState ''BBBBBB'' ''m7'' ''AAAAAA'' = (demoState, [])"
proof -
  have absent: "map_of (chats (db demoState)) (getChatKey ''BBBBBB'' ''CCCCCC'') = None"
    by (simp add: demoState_def getChatKey_def)
  have present: "map_of (chats (db demoState)) (getChatKey ''BBBBBB'' ''AAAAAA'') =
        Some [\<lparr> msg_id = ''m1'', sender = ''AAAAAA'', receiver = ''BBBBBB'',
                 msg_text = ''hello'', timestamp = ''t1'', read = False \<rparr>]"
    by (simp add: demoState_def getChatKey_def)
  show ?thesis
    using readMessage_unknown_is_noop [of demoState "''BBBBBB''" "''CCCCCC''" "''m1''"]
      readMessage_unknown_is_noop [of demoState "''BBBBBB''" "''AAAAAA''" "''m7''"]
      absent present
    by simp
qed

lemma find_msg_id_distinct:
  "distinct (map msg_id chat) \<Longrightarrow> m \<in> set chat
     \<Longrightarrow> List.find (\<lambda>x. msg_id x = msg_id m) chat = Some m"
  by (induction chat) force+

lemma markRead_absent: "M \<notin> msg_id ` set chat \<Longrightarrow> markRead M chat = chat"
  by (induction chat) auto

lemma markRead_distinct:
  "distinct (map msg_id chat)
     \<Longrightarrow> markRead M chat = map (\<lambda>x. if msg_id x = M then x\<lparr> read := True \<rparr> else x) chat"
proof (induction chat)
  case Nil
  then show ?case by simp
next
  case (Cons a chat)
  show ?case
  proof (cases "msg_id a = M")
    case True
    with Cons.prems have "M \<notin> msg_id ` set chat" by auto
    then have "map (\<lambda>x. if msg_id x = M then x\<lparr> read := True \<rparr> else x) chat = chat"
      by (induction chat) auto
    with True show ?thesis by simp
  next
    case False
    with Cons show ?thesis by simp
  qed
qed

lemma find_markRead:
  "List.find (\<lambda>x. msg_id x = M) chat = Some m
     \<Longrightarrow> List.find (\<lambda>x. msg_id x = M) (markRead M chat) = Some (m\<lparr> read := True \<rparr>)"
  by (induction chat) (auto split: if_splits)

lemma handleReadMessage_unread:
  assumes "map_of (chats (db s)) (getChatKey R S) = Some chat"
    and "List.find (\<lambda>x. msg_id x = M) chat = Some m" and "\<not> read m"
  shows "handleReadMessage s R M S =
     (s\<lparr> db := (db s)\<lparr> chats := AList.update (getChatKey R S) (markRead M chat) (chats (db s)) \<rparr> \<rparr>,
      Persist ((db s)\<lparr> chats := AList.update (getChatKey R S) (markRead M chat) (chats (db s)) \<rparr>)
        # (case map_of (clients s) S of
             None \<Rightarrow> []
           | Some senderWs \<Rightarrow> [Send senderWs (Envelope ''readReceipt'' (PReceipt M R))]))"
  using assms by (simp add: handleReadMessage_def Let_def)

lemma handleReadMessage_already_read:
  assumes "map_of (chats (db s)) (getChatKey R S) = Some chat"
    and "List.find (\<lambda>x. msg_id x = M) chat = Some m" and "read m"
  shows "handleReadMessage s R M S = (s, [])"
  using assms by (simp add: handleReadMessage_def Let_def)

text \<open>
  C3. readMessage (reader \<open>R\<close>, message id \<open>M\<close>, sender \<open>S\<close>): when the conversation under
  the canonical key of \<open>(R, S)\<close> contains an unread message with id \<open>M\<close> (ids being unique
  within the conversation), the first call sets the flag of that message and changes
  nothing else, writes the store, and then pushes one \<open>readReceipt\<close> carrying \<open>M\<close> to
  \<open>S\<close>'s socket exactly when \<open>S\<close> is online. A second readMessage for the same id changes
  no state and has no effect, so the flag stays set and the two calls together produce
  exactly one read receipt.
\<close>

theorem readMessage_marks_once:
  assumes "map_of (chats (db s)) (getChatKey R S) = Some chat"
    and "m \<in> set chat" and "msg_id m = M" and "\<not> read m"
    and "distinct (map msg_id chat)"
  shows "let r1 = handleReadMessage s R M S; s1 = fst r1; r2 = handleReadMessage s1 R M S
         in map_of (chats (db s1)) (getChatKey R S) =
              Some (map (\<lambda>x. if msg_id x = M then x\<lparr> read := True \<rparr> else x) chat)
          \<and> (\<forall>k. k \<noteq> getChatKey R S \<longrightarrow> map_of (chats (db s1)) k = map_of (chats (db s)) k)
          \<and> users (db s1) = users (db s)
          \<and> clients s1 = clients s
          \<and> snd r1 = Persist (db s1)
                # (case map_of (clients s) S of
                     None \<Rightarrow> []
                   | Some senderWs \<Rightarrow> [Send senderWs (Envelope ''readReceipt'' (PReceipt M R))])
          \<and> r2 = (s1, [])
          \<and> snd r1 @ snd r2 = Persist (db s1)
                # (case map_of (clients s) S of
                     None \<Rightarrow> []
                   | Some senderWs \<Rightarrow> [Send senderWs (Envelope ''readReceipt'' (PReceipt M R))])"
proof -
  define chat' where "chat' = markRead M chat"
  define s1 where
    "s1 = s\<lparr> db := (db s)\<lparr> chats := AList.update (getChatKey R S) chat' (chats (db s)) \<rparr> \<rparr>"
  have found: "List.find (\<lambda>x. msg_id x = M) chat = Some m"
    using find_msg_id_distinct [OF assms(5) assms(2)] assms(3) by simp
  have r1: "handleReadMessage s R M S =
      (s1, Persist (db s1)
             # (case map_of (clients s) S of
                  None \<Rightarrow> []
                | Some senderWs \<Rightarrow> [Send senderWs (Envelope ''readReceipt'' (PReceipt M R))]))"
    using handleReadMessage_unread [OF assms(1) found assms(4)]
    by (simp add: s1_def chat'_def)
  have chats1: "map_of (chats (db s1)) = (map_of (chats (db s)))(getChatKey R S \<mapsto> chat')"
    by (simp add: s1_def update_conv')
  have found': "List.find (\<lambda>x. msg_id x = M) chat' = Some (m\<lparr> read := True \<rparr>)"
    unfolding chat'_def by (rule find_markRead [OF found])
  have r2: "handleReadMessage s1 R M S = (s1, [])"
    by (rule handleReadMessage_already_read [where chat = chat' and m = "m\<lparr> read := True \<rparr>"])
       (simp_all add: chats1 found')
  have chat'_eq: "chat' = map (\<lambda>x. if msg_id x = M then x\<lparr> read := True \<rparr> else x) chat"
    unfolding chat'_def by (rule markRead_distinct [OF assms(5)])
  have rest: "users (db s1) = users (db s)" "clients s1 = clients s"
    by (simp_all add: s1_def)
  show ?thesis
    unfolding Let_def r1 fst_conv snd_conv r2
    using rest by (simp add: chats1 chat'_eq)
qed

theorem readMessage_marks_once_witness:
  "handleReadMessage demoState ''BBBBBB'' ''m1'' ''AAAAAA'' =
     (\<lparr> db = \<lparr> users = users (db demoState),
              chats = [(''AAAAAA-BBBBBB'',
                  [\<lparr> msg_id = ''m1'', sender = ''AAAAAA'', receiver = ''BBBBBB'',
                     msg_text = ''hello'', timestamp = ''t1'', read = True \<rparr>])] \<rparr>,
         clients = clients demoState \<rparr>,
      [Persist \<lparr> users = users (db demoState),
              chats = [(''AAAAAA-BBBBBB'',
                  [\<lparr> msg_id = ''m1'', sender = ''AAAAAA'', receiver = ''BBBBBB'',
                     msg_text = ''hello'', timestamp = ''t1'', read = True \<rparr>])] \<rparr>,
       Send (Conn 1) (Envelope ''readReceipt'' (PReceipt ''m1'' ''BBBBBB''))])
   \<and> handleReadMessage (fst (handleReadMessage demoState ''BBBBBB'' ''m1'' ''AAAAAA''))
        ''BBBBBB'' ''m1'' ''AAAAAA'' =
       (fst (handleReadMessage demoState ''BBBBBB'' ''m1'' ''AAAAAA''), [])"
proof -
  define m where "m = \<lparr> msg_id = ''m1'', sender = ''AAAAAA'', receiver = ''BBBBBB'',
                     msg_text = ''hello'', timestamp = ''t1'', read = False \<rparr>"
  have key: "getChatKey ''BBBBBB'' ''AAAAAA'' = ''AAAAAA-BBBBBB''"
    by (simp add: getChatKey_def)
  have chat: "map_of (chats (db demoState)) (getChatKey ''BBBBBB'' ''AAAAAA'') = Some [m]"
    by (simp add: key demoState_def m_def)
  have first: "handleReadMessage demoState ''BBBBBB'' ''m1'' ''AAAAAA'' =
     (\<lparr> db = \<lparr> users = users (db demoState),
              chats = [(''AAAAAA-BBBBBB'', [m\<lparr> read := True \<rparr>])] \<rparr>,
         clients = clients demoState \<rparr>,
      [Persist \<lparr> users = users (db demoState),
              chats = [(''AAAAAA-BBBBBB'', [m\<lparr> read := True \<rparr>])] \<rparr>,
       Send (Conn 1) (Envelope ''readReceipt'' (PReceipt ''m1'' ''BBBBBB''))])"
    by (simp add: handleReadMessage_def key demoState_def m_def Let_def)
  note T = readMessage_marks_once [OF chat, of m "''m1''", unfolded Let_def]
  have "handleReadMessage (fst (handleReadMessage demoState ''BBBBBB'' ''m1'' ''AAAAAA''))
        ''BBBBBB'' ''m1'' ''AAAAAA'' =
       (fst (handleReadMessage demoState ''BBBBBB'' ''m1'' ''AAAAAA''), [])"
    using T by (simp add: m_def)
  with first show ?thesis by (simp add: m_def)
qed

section \<open>Adding a contact\<close>

lemma findUsername_None_iff:
  "findUsername d code = None \<longleftrightarrow>
     (\<forall>u usr. map_of (users d) u = Some usr \<longrightarrow> userCode usr \<noteq> code)"
proof
  assume none: "findUsername d code = None"
  show "\<forall>u usr. map_of (users d) u = Some usr \<longrightarrow> userCode usr \<noteq> code"
  proof (intro allI impI)
    fix u usr
    assume some: "map_of (users d) u = Some usr"
    then have "u \<in> set (map fst (users d))"
      by (metis domI dom_map_of_conv_image_fst set_map)
    with none some show "userCode usr \<noteq> code"
      by (auto simp: findUsername_def find_None_iff)
  qed
next
  assume "\<forall>u usr. map_of (users d) u = Some usr \<longrightarrow> userCode usr \<noteq> code"
  then show "findUsername d code = None"
    by (auto simp: findUsername_def find_None_iff split: option.splits)
qed

lemma findUsername_Some:
  "findUsername d code = Some u \<Longrightarrow> \<exists>usr. map_of (users d) u = Some usr \<and> userCode usr = code"
  by (auto simp: findUsername_def find_Some_iff split: option.splits)

lemma handleAddContact_unknown:
  "findUsername (db s) target = None \<Longrightarrow>
     handleAddContact s ws adder target =
       Inr (s, [Send ws (Envelope ''error'' (PError ''User with that code does not exist.''))])"
  by (simp add: handleAddContact_def errorReply_def)

lemma handleAddContact_empty_name:
  "findUsername (db s) target = Some [] \<Longrightarrow>
     handleAddContact s ws adder target =
       Inr (s, [Send ws (Envelope ''error'' (PError ''User with that code does not exist.''))])"
  by (simp add: handleAddContact_def errorReply_def)

lemma handleAddContact_self:
  "findUsername (db s) code = Some u \<Longrightarrow> u \<noteq> [] \<Longrightarrow>
     handleAddContact s ws code code =
       Inr (s, [Send ws (Envelope ''error'' (PError ''You cannot add yourself as a contact.''))])"
  by (simp add: handleAddContact_def errorReply_def)

lemma onMessage_AddContact_Inr:
  "handleAddContact s ws adder target = Inr r \<Longrightarrow>
     onMessage env s ws (AddContact adder target) = Some r"
  by (simp add: onMessage_def handleMessage_def)

text \<open>
  The claim C7 as written ends with "the failure reply is an \<open>addContactError\<close>
  envelope". The server has one envelope type for every failure; for an unknown target
  code the reply is of type \<open>error\<close>, not \<open>addContactError\<close>.
\<close>

theorem addContact_reply_type_counterexample:
  "handleAddContact demoState (Conn 1) ''AAAAAA'' ''ZZZZZZ'' =
     Inr (demoState,
          [Send (Conn 1) (Envelope ''error'' (PError ''User with that code does not exist.''))])
   \<and> handleAddContact demoState (Conn 1) ''AAAAAA'' ''ZZZZZZ'' \<noteq>
     Inr (demoState,
          [Send (Conn 1)
             (Envelope ''addContactError'' (PError ''User with that code does not exist.''))])"
  by (simp add: handleAddContact_def findUsername_def demoState_def errorReply_def)

text \<open>
  C7, amended. An addContact whose target code is the code of no account, and an
  addContact whose target code is the requester's own code, is rejected: the state is
  unchanged (no contact set changes) and the only effect is one reply to the caller's
  socket (the store is not written, no contact list is pushed, nothing is broadcast).
  The reply is the generic \<open>error{message}\<close> envelope. Its message is
  "User with that code does not exist." when the lookup of the target code yields no
  username or the empty username (the test \<open>!targetUsername\<close> comes first), and
  "You cannot add yourself as a contact." otherwise. A target code that belongs to the
  account with the empty username is rejected in the same way.
\<close>

theorem addContact_rejected:
  assumes "(\<forall>u usr. map_of (users (db s)) u = Some usr \<longrightarrow> userCode usr \<noteq> target)
           \<or> adder = target
           \<or> findUsername (db s) target = Some []"
  shows "handleAddContact s ws adder target =
           Inr (s, [Send ws (Envelope ''error'' (PError
                  (if findUsername (db s) target = None \<or> findUsername (db s) target = Some []
                   then ''User with that code does not exist.''
                   else ''You cannot add yourself as a contact.'')))])
         \<and> onMessage env s ws (AddContact adder target) =
           Some (s, [Send ws (Envelope ''error'' (PError
                  (if findUsername (db s) target = None \<or> findUsername (db s) target = Some []
                   then ''User with that code does not exist.''
                   else ''You cannot add yourself as a contact.'')))])"
proof (cases "findUsername (db s) target")
  case None
  then show ?thesis
    using handleAddContact_unknown [OF None, of ws adder]
    by (simp add: onMessage_AddContact_Inr)
next
  case (Some u)
  show ?thesis
  proof (cases "u = []")
    case True
    with Some have empty: "findUsername (db s) target = Some []" by simp
    then show ?thesis
      using handleAddContact_empty_name [OF empty, of ws adder]
      by (simp add: onMessage_AddContact_Inr)
  next
    case False
    with Some assms have "adder = target" by (simp add: findUsername_None_iff [symmetric])
    then show ?thesis
      using handleAddContact_self [OF Some False, of ws] Some False
      by (simp add: onMessage_AddContact_Inr)
  qed
qed

theorem addContact_rejected_witness:
  "handleAddContact demoState (Conn 1) ''AAAAAA'' ''ZZZZZZ'' =
     Inr (demoState,
          [Send (Conn 1) (Envelope ''error'' (PError ''User with that code does not exist.''))])
   \<and> handleAddContact demoState (Conn 1) ''AAAAAA'' ''AAAAAA'' =
     Inr (demoState,
          [Send (Conn 1) (Envelope ''error'' (PError ''You cannot add yourself as a contact.''))])
   \<and> handleAddContact emptyNameState (Conn 5) ''EEEEEE'' ''EEEEEE'' =
     Inr (emptyNameState,
          [Send (Conn 5) (Envelope ''error'' (PError ''User with that code does not exist.''))])
   \<and> handleAddContact emptyNameState (Conn 2) ''BBBBBB'' ''EEEEEE'' =
     Inr (emptyNameState,
          [Send (Conn 2) (Envelope ''error'' (PError ''User with that code does not exist.''))])"
proof -
  have unknown: "\<forall>u usr. map_of (users (db demoState)) u = Some usr \<longrightarrow> userCode usr \<noteq> ''ZZZZZZ''"
    by (auto simp: demoState_def split: if_splits)
  have f1: "findUsername (db demoState) ''ZZZZZZ'' = None"
    by (simp add: findUsername_def demoState_def)
  have f2: "findUsername (db demoState) ''AAAAAA'' = Some ''alice''"
    by (simp add: findUsername_def demoState_def)
  have f3: "findUsername (db emptyNameState) ''EEEEEE'' = Some []"
    by (simp add: findUsername_def emptyNameState_def)
  show ?thesis
    using addContact_rejected [of demoState "''ZZZZZZ''" "''AAAAAA''" "Conn 1"]
      addContact_rejected [of demoState "''AAAAAA''" "''AAAAAA''" "Conn 1"]
      addContact_rejected [of emptyNameState "''EEEEEE''" "''EEEEEE''" "Conn 5"]
      addContact_rejected [of emptyNameState "''EEEEEE''" "''BBBBBB''" "Conn 2"] unknown
    by (simp add: f1 f2 f3)
qed

section \<open>Adding a contact: the accepted case\<close>

lemma map_of_Some_key: "map_of al k = Some v \<Longrightarrow> k \<in> fst ` set al"
  by (metis domI dom_map_of_conv_image_fst)

lemma pushContact_keys: "map fst (pushContact u c us) = map fst us"
  by (auto simp: pushContact_def update_keys map_of_Some_key split: option.splits)

lemma map_of_pushContact:
  "map_of (pushContact u c us) =
     (case map_of us u of None \<Rightarrow> map_of us
      | Some usr \<Rightarrow> (map_of us)(u \<mapsto> addIfAbsent c usr))"
  by (auto simp: pushContact_def update_conv' addIfAbsent_def split: option.splits)

lemma userCode_addIfAbsent [simp]: "userCode (addIfAbsent c usr) = userCode usr"
  by (simp add: addIfAbsent_def)

lemma pushContact_present:
  "map_of us u = Some usr \<Longrightarrow> c \<in> set (contacts usr) \<Longrightarrow> pushContact u c us = us"
  by (simp add: pushContact_def)

lemma findUsername_pushContact:
  assumes "users d' = pushContact u c (users d)"
  shows "findUsername d' code = findUsername d code"
proof -
  have "(case map_of (pushContact u c (users d)) x of Some usr \<Rightarrow> userCode usr = code | None \<Rightarrow> False)
      = (case map_of (users d) x of Some usr \<Rightarrow> userCode usr = code | None \<Rightarrow> False)" for x
    by (auto simp: map_of_pushContact split: option.splits)
  then show ?thesis
    by (simp add: findUsername_def assms pushContact_keys)
qed

lemma handleAddContact_accepted:
  assumes a: "findUsername (db s) A = Some ua" and b: "findUsername (db s) B = Some ub"
    and ne: "A \<noteq> B" and named: "ub \<noteq> []"
  shows "handleAddContact s ws A B =
     Inr (s\<lparr> db := (db s)\<lparr> users := pushContact ub A (pushContact ua B (users (db s))) \<rparr> \<rparr>,
          Persist ((db s)\<lparr> users := pushContact ub A (pushContact ua B (users (db s))) \<rparr>)
            # sendContactListUpdate
                (s\<lparr> db := (db s)\<lparr> users := pushContact ub A (pushContact ua B (users (db s))) \<rparr> \<rparr>) A
            @ (case map_of (clients s) B of
                 None \<Rightarrow> []
               | Some targetWs \<Rightarrow>
                   sendContactListUpdate
                     (s\<lparr> db := (db s)\<lparr> users := pushContact ub A (pushContact ua B (users (db s))) \<rparr> \<rparr>) B))"
proof -
  from findUsername_Some [OF a] obtain usrA where "map_of (users (db s)) ua = Some usrA" by blast
  then show ?thesis
    using a b ne named by (simp add: handleAddContact_def lookupUser_def Let_def)
qed


text \<open>
  C4. For two existing accounts with distinct codes \<open>A\<close> and \<open>B\<close>, a successful
  addContact(A, B) (the server accepts it when the username of \<open>B\<close>'s account is not
  empty) leaves \<open>B\<close> in the contact list of \<open>A\<close>'s account and \<open>A\<close> in the contact list
  of \<open>B\<close>'s account in that one call (each code is appended unless already there; the
  codes of the two accounts and every other account are untouched). Repeating
  addContact(A, B), or performing addContact(B, A), in the resulting state leaves the
  whole state as it is.
\<close>

theorem addContact_symmetric_idempotent:
  assumes "findUsername (db s) A = Some ua" and "findUsername (db s) B = Some ub" and "A \<noteq> B"
    and "ub \<noteq> []"
  shows "\<exists>s1 e1 e2 e3 usrA usrB.
           handleAddContact s ws A B = Inr (s1, e1)
         \<and> map_of (users (db s)) ua = Some usrA \<and> userCode usrA = A
         \<and> map_of (users (db s)) ub = Some usrB \<and> userCode usrB = B
         \<and> map_of (users (db s1)) ua = Some (addIfAbsent B usrA)
         \<and> B \<in> set (contacts (addIfAbsent B usrA))
         \<and> map_of (users (db s1)) ub = Some (addIfAbsent A usrB)
         \<and> A \<in> set (contacts (addIfAbsent A usrB))
         \<and> (\<forall>u. u \<noteq> ua \<and> u \<noteq> ub \<longrightarrow> map_of (users (db s1)) u = map_of (users (db s)) u)
         \<and> handleAddContact s1 ws' A B = Inr (s1, e2)
         \<and> handleAddContact s1 ws' B A = Inr (s1, e3)"
proof -
  from findUsername_Some [OF assms(1)] obtain usrA
    where usrA: "map_of (users (db s)) ua = Some usrA" "userCode usrA = A" by blast
  from findUsername_Some [OF assms(2)] obtain usrB
    where usrB: "map_of (users (db s)) ub = Some usrB" "userCode usrB = B" by blast
  from usrA usrB assms(3) have neq: "ua \<noteq> ub" by auto
  define us1 where "us1 = pushContact ua B (users (db s))"
  define us2 where "us2 = pushContact ub A us1"
  define s1 where "s1 = s\<lparr> db := (db s)\<lparr> users := us2 \<rparr> \<rparr>"
  have m1: "map_of us1 = (map_of (users (db s)))(ua \<mapsto> addIfAbsent B usrA)"
    by (simp add: us1_def map_of_pushContact usrA)
  have m2: "map_of us2 = (map_of us1)(ub \<mapsto> addIfAbsent A usrB)"
    using neq by (simp add: us2_def map_of_pushContact m1 usrB)
  have a1: "map_of us2 ua = Some (addIfAbsent B usrA)" using neq by (simp add: m1 m2)
  have b1: "map_of us2 ub = Some (addIfAbsent A usrB)" by (simp add: m2)
  have inA: "B \<in> set (contacts (addIfAbsent B usrA))" by (simp add: addIfAbsent_def)
  have inB: "A \<in> set (contacts (addIfAbsent A usrB))" by (simp add: addIfAbsent_def)
  have others: "\<forall>u. u \<noteq> ua \<and> u \<noteq> ub \<longrightarrow> map_of us2 u = map_of (users (db s)) u"
    by (simp add: m1 m2)
  have find1: "findUsername (db s1) x = findUsername (db s) x" for x
  proof -
    have "findUsername (db s1) x = findUsername ((db s)\<lparr> users := us1 \<rparr>) x"
      by (rule findUsername_pushContact [where u = ub and c = A]) (simp add: s1_def us2_def)
    also have "\<dots> = findUsername (db s) x"
      by (rule findUsername_pushContact [where u = ua and c = B]) (simp add: us1_def)
    finally show ?thesis .
  qed
  have keep_AB: "pushContact ub A (pushContact ua B us2) = us2"
    using a1 b1 inA inB by (simp add: pushContact_present)
  have keep_BA: "pushContact ua B (pushContact ub A us2) = us2"
    using a1 b1 inA inB by (simp add: pushContact_present)
  have users1: "users (db s1) = us2" by (simp add: s1_def)
  have stable: "s1\<lparr> db := (db s1)\<lparr> users := us2 \<rparr> \<rparr> = s1" by (simp add: s1_def)
  have first: "\<exists>e1. handleAddContact s ws A B = Inr (s1, e1)"
    using handleAddContact_accepted [OF assms, of ws] by (simp add: s1_def us1_def us2_def)
  have again: "\<exists>e2. handleAddContact s1 ws' A B = Inr (s1, e2)"
    using handleAddContact_accepted [of s1 A ua B ub ws'] assms
    by (simp add: find1 users1 keep_AB stable)
  have swapped: "\<exists>e3. handleAddContact s1 ws' B A = Inr (s1, e3)"
  proof (cases "ua = []")
    case True
    with assms(1) have "findUsername (db s1) A = Some []" by (simp add: find1)
    from handleAddContact_empty_name [OF this] show ?thesis by blast
  next
    case False
    then show ?thesis
      using handleAddContact_accepted [of s1 B ub A ua ws'] assms
      by (simp add: find1 users1 keep_BA stable)
  qed
  from first again swapped usrA usrB a1 b1 inA inB others show ?thesis
    unfolding users1 [symmetric] by blast
qed


theorem addContact_symmetric_idempotent_witness:
  "findUsername (db demoState) ''AAAAAA'' = Some ''alice''
   \<and> findUsername (db demoState) ''CCCCCC'' = Some ''carol''
   \<and> (\<exists>s1 e1 e2 e3.
         handleAddContact demoState (Conn 1) ''AAAAAA'' ''CCCCCC'' = Inr (s1, e1)
       \<and> map_of (users (db s1)) ''alice'' =
           Some \<lparr> password = ''pw1'', userCode = ''AAAAAA'', contacts = [''BBBBBB'', ''CCCCCC''] \<rparr>
       \<and> map_of (users (db s1)) ''carol'' =
           Some \<lparr> password = ''pw3'', userCode = ''CCCCCC'', contacts = [''AAAAAA''] \<rparr>
       \<and> handleAddContact s1 (Conn 3) ''AAAAAA'' ''CCCCCC'' = Inr (s1, e2)
       \<and> handleAddContact s1 (Conn 3) ''CCCCCC'' ''AAAAAA'' = Inr (s1, e3))
   \<and> findUsername (db emptyNameState) ''EEEEEE'' = Some []
   \<and> findUsername (db emptyNameState) ''BBBBBB'' = Some ''bob''
   \<and> (\<exists>s1 e1 e2 e3.
         handleAddContact emptyNameState (Conn 5) ''EEEEEE'' ''BBBBBB'' = Inr (s1, e1)
       \<and> map_of (users (db s1)) [] =
           Some \<lparr> password = ''pw0'', userCode = ''EEEEEE'', contacts = [''BBBBBB''] \<rparr>
       \<and> map_of (users (db s1)) ''bob'' =
           Some \<lparr> password = ''pw2'', userCode = ''BBBBBB'', contacts = [''EEEEEE''] \<rparr>
       \<and> handleAddContact s1 (Conn 3) ''EEEEEE'' ''BBBBBB'' = Inr (s1, e2)
       \<and> handleAddContact s1 (Conn 3) ''BBBBBB'' ''EEEEEE'' = Inr (s1, e3))"
proof -
  have fa: "findUsername (db demoState) ''AAAAAA'' = Some ''alice''"
    by (simp add: findUsername_def demoState_def)
  have fc: "findUsername (db demoState) ''CCCCCC'' = Some ''carol''"
    by (simp add: findUsername_def demoState_def)
  have ne: "''AAAAAA'' \<noteq> ''CCCCCC''" by simp
  have named: "''carol'' \<noteq> []" by simp
  from addContact_symmetric_idempotent [OF fa fc ne named, of "Conn 1" "Conn 3"]
  obtain s1 e1 e2 e3 usrA usrB where
    r: "handleAddContact demoState (Conn 1) ''AAAAAA'' ''CCCCCC'' = Inr (s1, e1)"
    and ua: "map_of (users (db demoState)) ''alice'' = Some usrA"
    and uc: "map_of (users (db demoState)) ''carol'' = Some usrB"
    and ua': "map_of (users (db s1)) ''alice'' = Some (addIfAbsent ''CCCCCC'' usrA)"
    and uc': "map_of (users (db s1)) ''carol'' = Some (addIfAbsent ''AAAAAA'' usrB)"
    and i1: "handleAddContact s1 (Conn 3) ''AAAAAA'' ''CCCCCC'' = Inr (s1, e2)"
    and i2: "handleAddContact s1 (Conn 3) ''CCCCCC'' ''AAAAAA'' = Inr (s1, e3)"
    by (elim exE conjE) (rule that; assumption)
  from ua have usrA: "usrA = \<lparr> password = ''pw1'', userCode = ''AAAAAA'', contacts = [''BBBBBB''] \<rparr>"
    by (simp add: demoState_def)
  from uc have usrB: "usrB = \<lparr> password = ''pw3'', userCode = ''CCCCCC'', contacts = [] \<rparr>"
    by (simp add: demoState_def)
  have a2: "map_of (users (db s1)) ''alice'' =
           Some \<lparr> password = ''pw1'', userCode = ''AAAAAA'', contacts = [''BBBBBB'', ''CCCCCC''] \<rparr>"
    using ua' by (simp add: usrA addIfAbsent_def)
  have c2: "map_of (users (db s1)) ''carol'' =
           Some \<lparr> password = ''pw3'', userCode = ''CCCCCC'', contacts = [''AAAAAA''] \<rparr>"
    using uc' by (simp add: usrB addIfAbsent_def)
  have fe: "findUsername (db emptyNameState) ''EEEEEE'' = Some []"
    by (simp add: findUsername_def emptyNameState_def)
  have fb: "findUsername (db emptyNameState) ''BBBBBB'' = Some ''bob''"
    by (simp add: findUsername_def emptyNameState_def)
  have ne': "''EEEEEE'' \<noteq> ''BBBBBB''" by simp
  have named': "''bob'' \<noteq> []" by simp
  from addContact_symmetric_idempotent [OF fe fb ne' named', of "Conn 5" "Conn 3"]
  obtain t1 d1 d2 d3 usrE usrBob where
    r': "handleAddContact emptyNameState (Conn 5) ''EEEEEE'' ''BBBBBB'' = Inr (t1, d1)"
    and ue: "map_of (users (db emptyNameState)) [] = Some usrE"
    and ub: "map_of (users (db emptyNameState)) ''bob'' = Some usrBob"
    and ue': "map_of (users (db t1)) [] = Some (addIfAbsent ''BBBBBB'' usrE)"
    and ub': "map_of (users (db t1)) ''bob'' = Some (addIfAbsent ''EEEEEE'' usrBob)"
    and j1: "handleAddContact t1 (Conn 3) ''EEEEEE'' ''BBBBBB'' = Inr (t1, d2)"
    and j2: "handleAddContact t1 (Conn 3) ''BBBBBB'' ''EEEEEE'' = Inr (t1, d3)"
    by (elim exE conjE) (rule that; assumption)
  from ue have usrE: "usrE = \<lparr> password = ''pw0'', userCode = ''EEEEEE'', contacts = [] \<rparr>"
    by (simp add: emptyNameState_def)
  from ub have usrBob: "usrBob = \<lparr> password = ''pw2'', userCode = ''BBBBBB'', contacts = [] \<rparr>"
    by (simp add: emptyNameState_def)
  have e2': "map_of (users (db t1)) [] =
           Some \<lparr> password = ''pw0'', userCode = ''EEEEEE'', contacts = [''BBBBBB''] \<rparr>"
    using ue' by (simp add: usrE addIfAbsent_def)
  have b2': "map_of (users (db t1)) ''bob'' =
           Some \<lparr> password = ''pw2'', userCode = ''BBBBBB'', contacts = [''EEEEEE''] \<rparr>"
    using ub' by (simp add: usrBob addIfAbsent_def)
  show ?thesis
    by (intro conjI exI, rule fa, rule fc, rule r, rule a2, rule c2, rule i1, rule i2,
        rule fe, rule fb, rule r', rule e2', rule b2', rule j1, rule j2)
qed

section \<open>Unread counts\<close>

lemma getChatKey_commute: "getChatKey a b = getChatKey b a"
  by (auto simp: getChatKey_def)

lemma findUsername_users: "users d' = users d \<Longrightarrow> findUsername d' code = findUsername d code"
  by (simp add: findUsername_def)

lemma lookupUser_users: "users d' = users d \<Longrightarrow> lookupUser d' u = lookupUser d u"
  by (simp add: lookupUser_def)

lemma contactDetailOf_found:
  assumes "findUsername (db s) C = Some uC"
  shows "contactDetailOf s V C =
     Some \<lparr> cd_username = Some uC, cd_userCode = C,
            cd_isOnline = (map_of (clients s) C \<noteq> None),
            cd_unreadCount = unreadCount (db s) V C \<rparr>"
proof -
  from findUsername_Some [OF assms] obtain usr
    where "map_of (users (db s)) uC = Some usr" "userCode usr = C" by blast
  then show ?thesis
    by (simp add: contactDetailOf_def assms lookupUser_def)
qed

lemma map_filter_mem: "f x = Some y \<Longrightarrow> x \<in> set xs \<Longrightarrow> y \<in> set (List.map_filter f xs)"
  by (force simp: List.map_filter_def)

lemma sendContactListUpdate_online:
  assumes "map_of (clients s) V = Some w" and "findUsername (db s) V = Some uV"
    and "map_of (users (db s)) uV = Some usrV"
  shows "sendContactListUpdate s V =
    [Send w (Envelope ''contactList''
       (PContacts (List.map_filter (contactDetailOf s V) (contacts usrV))))]"
  using assms by (simp add: sendContactListUpdate_def lookupUser_def)

lemma unreadCount_chatOf:
  "unreadCount d V C =
     length (filter (\<lambda>m. receiver m = V \<and> \<not> read m) (chatOf d (getChatKey V C)))"
  by (simp add: unreadCount_def Let_def)

lemma chatOf_handleSendMessage:
  "chatOf (db (fst (handleSendMessage uuid now s ws A B t))) (getChatKey A B) =
     chatOf (db s) (getChatKey A B)
       @ [\<lparr> msg_id = uuid, sender = A, receiver = B, msg_text = t, timestamp = now, read = False \<rparr>]"
  by (simp add: chatOf_def [of "db (fst (handleSendMessage uuid now s ws A B t))"]
      handleSendMessage_chats)

lemma unreadCount_handleSendMessage:
  "unreadCount (db (fst (handleSendMessage uuid now s ws C V t))) V C = unreadCount (db s) V C + 1"
  using chatOf_handleSendMessage [of uuid now s ws C V t]
  by (simp add: unreadCount_chatOf getChatKey_commute [of V C])

text \<open>One readMessage, seen on the conversation it addresses.\<close>

lemma map_mark_absent:
  "M \<notin> msg_id ` set chat \<Longrightarrow> map (\<lambda>x. if msg_id x = M then x\<lparr> read := True \<rparr> else x) chat = chat"
  by (induction chat) auto

lemma map_mark_already:
  "distinct (map msg_id chat) \<Longrightarrow> List.find (\<lambda>x. msg_id x = M) chat = Some m \<Longrightarrow> read m
     \<Longrightarrow> map (\<lambda>x. if msg_id x = M then x\<lparr> read := True \<rparr> else x) chat = chat"
proof (induction chat)
  case Nil
  then show ?case by simp
next
  case (Cons a chat)
  show ?case
  proof (cases "msg_id a = M")
    case True
    with Cons.prems have "a = m" "M \<notin> msg_id ` set chat" by auto
    with True Cons.prems(3) show ?thesis by (simp add: map_mark_absent)
  next
    case False
    with Cons show ?thesis by simp
  qed
qed

lemma find_msg_id_None_iff: "List.find (\<lambda>m. msg_id m = M) chat = None \<longleftrightarrow> M \<notin> msg_id ` set chat"
  by (auto simp: find_None_iff)

lemma chatOf_handleReadMessage:
  assumes "distinct (map msg_id (chatOf (db s) (getChatKey R S)))"
  shows "chatOf (db (fst (handleReadMessage s R M S))) (getChatKey R S) =
     map (\<lambda>x. if msg_id x = M then x\<lparr> read := True \<rparr> else x) (chatOf (db s) (getChatKey R S))"
proof (cases "map_of (chats (db s)) (getChatKey R S)")
  case None
  then show ?thesis by (simp add: handleReadMessage_no_chat chatOf_def)
next
  case (Some chat)
  then have c: "chatOf (db s) (getChatKey R S) = chat" by (simp add: chatOf_def)
  with assms have d: "distinct (map msg_id chat)" by simp
  show ?thesis
  proof (cases "List.find (\<lambda>x. msg_id x = M) chat")
    case None
    then have "M \<notin> msg_id ` set chat" by (simp add: find_msg_id_None_iff)
    then show ?thesis
      using Some by (simp add: handleReadMessage_no_message c map_mark_absent)
  next
    case (Some m) note found = this
    show ?thesis
    proof (cases "read m")
      case True
      then show ?thesis
        using handleReadMessage_already_read [OF \<open>map_of (chats (db s)) (getChatKey R S) = Some chat\<close> found]
        by (simp add: c map_mark_already [OF d found])
    next
      case False
      then show ?thesis
        using handleReadMessage_unread [OF \<open>map_of (chats (db s)) (getChatKey R S) = Some chat\<close> found]
          \<open>map_of (chats (db s)) (getChatKey R S) = Some chat\<close>
        by (simp add: chatOf_def update_conv' markRead_distinct [OF d])
    qed
  qed
qed

lemma users_handleReadMessage: "users (db (fst (handleReadMessage s R M S))) = users (db s)"
  by (simp add: handleReadMessage_def Let_def split: option.splits)

lemma clients_handleReadMessage: "clients (fst (handleReadMessage s R M S)) = clients s"
  by (simp add: handleReadMessage_def Let_def split: option.splits)

text \<open>A sequence of readMessage requests from the same reader about the same sender.\<close>

lemma chatOf_readAll:
  "distinct (map msg_id (chatOf (db s) (getChatKey R S))) \<Longrightarrow>
   chatOf (db (foldl (\<lambda>st mid. fst (handleReadMessage st R mid S)) s ids)) (getChatKey R S) =
     map (\<lambda>x. if msg_id x \<in> set ids then x\<lparr> read := True \<rparr> else x) (chatOf (db s) (getChatKey R S))"
proof (induction ids arbitrary: s)
  case Nil
  then show ?case by simp
next
  case (Cons M ids)
  let ?s1 = "fst (handleReadMessage s R M S)"
  have c1: "chatOf (db ?s1) (getChatKey R S) =
     map (\<lambda>x. if msg_id x = M then x\<lparr> read := True \<rparr> else x) (chatOf (db s) (getChatKey R S))"
    by (rule chatOf_handleReadMessage [OF Cons.prems])
  have "map msg_id (chatOf (db ?s1) (getChatKey R S)) = map msg_id (chatOf (db s) (getChatKey R S))"
    by (simp add: c1 o_def if_distrib cong: if_cong)
  with Cons.prems have d1: "distinct (map msg_id (chatOf (db ?s1) (getChatKey R S)))" by simp
  show ?case
    by (simp add: Cons.IH [OF d1] c1 o_def)
qed

lemma users_readAll:
  "users (db (foldl (\<lambda>st mid. fst (handleReadMessage st R mid S)) s ids)) = users (db s)"
  by (induction ids arbitrary: s) (simp_all add: users_handleReadMessage)

lemma unreadCount_readAll:
  assumes "distinct (map msg_id (chatOf (db s) (getChatKey V C)))"
  shows "unreadCount
     (db (foldl (\<lambda>st mid. fst (handleReadMessage st V mid C)) s
        (map msg_id (filter (\<lambda>m. receiver m = V \<and> \<not> read m) (chatOf (db s) (getChatKey V C))))))
     V C = 0"
  by (simp add: unreadCount_chatOf chatOf_readAll [OF assms] filter_empty_conv) force


lemma clients_readAll:
  "clients (foldl (\<lambda>st mid. fst (handleReadMessage st R mid S)) s ids) = clients s"
  by (induction ids arbitrary: s) (simp_all add: clients_handleReadMessage)

text \<open>
  C2. Let \<open>V\<close> be the code of an account and \<open>C\<close> a code in that account's contact list
  that is itself the code of an account. The entry for \<open>C\<close> in \<open>V\<close>'s contact-list
  snapshot (the list sent to \<open>V\<close>'s socket when \<open>V\<close> is online) reports as unread count
  the number of messages in the conversation under the canonical key of \<open>(V, C)\<close> whose
  receiver is \<open>V\<close> and whose read flag is false. After a sendMessage from \<open>C\<close> to \<open>V\<close>
  the reported count is one higher; after a readMessage by \<open>V\<close> for each of those unread
  messages (ids being unique within the conversation) it is zero.
\<close>

theorem unread_count_reported:
  assumes "findUsername (db s) V = Some uV" and "map_of (users (db s)) uV = Some usrV"
    and "C \<in> set (contacts usrV)" and "findUsername (db s) C = Some uC"
  shows
    "let unread = filter (\<lambda>m. receiver m = V \<and> \<not> read m) (chatOf (db s) (getChatKey V C));
         entry = (\<lambda>n. \<lparr> cd_username = Some uC, cd_userCode = C,
                        cd_isOnline = (map_of (clients s) C \<noteq> None), cd_unreadCount = n \<rparr>);
         snapshot = List.map_filter (contactDetailOf s V) (contacts usrV);
         s1 = fst (handleSendMessage uuid now s ws C V t);
         s2 = foldl (\<lambda>st mid. fst (handleReadMessage st V mid C)) s (map msg_id unread)
     in contactDetailOf s V C = Some (entry (length unread))
      \<and> entry (length unread) \<in> set snapshot
      \<and> (\<forall>w. map_of (clients s) V = Some w \<longrightarrow>
            sendContactListUpdate s V = [Send w (Envelope ''contactList'' (PContacts snapshot))])
      \<and> contactDetailOf s1 V C = Some (entry (length unread + 1))
      \<and> (distinct (map msg_id (chatOf (db s) (getChatKey V C))) \<longrightarrow>
            contactDetailOf s2 V C = Some (entry 0))"
proof -
  define unread where
    "unread = filter (\<lambda>m. receiver m = V \<and> \<not> read m) (chatOf (db s) (getChatKey V C))"
  define entry where
    "entry = (\<lambda>n. \<lparr> cd_username = Some uC, cd_userCode = C,
                     cd_isOnline = (map_of (clients s) C \<noteq> None), cd_unreadCount = n \<rparr>)"
  define s1 where "s1 = fst (handleSendMessage uuid now s ws C V t)"
  define s2 where "s2 = foldl (\<lambda>st mid. fst (handleReadMessage st V mid C)) s (map msg_id unread)"
  have now: "contactDetailOf s V C = Some (entry (length unread))"
    by (simp add: contactDetailOf_found [OF assms(4)] entry_def unread_def unreadCount_chatOf)
  have mem: "entry (length unread) \<in> set (List.map_filter (contactDetailOf s V) (contacts usrV))"
    using now assms(3) by (rule map_filter_mem [where f = "contactDetailOf s V" and x = C])
  have push: "\<forall>w. map_of (clients s) V = Some w \<longrightarrow>
      sendContactListUpdate s V =
        [Send w (Envelope ''contactList''
           (PContacts (List.map_filter (contactDetailOf s V) (contacts usrV))))]"
    using sendContactListUpdate_online [OF _ assms(1) assms(2)] by blast
  have f1: "findUsername (db s1) C = Some uC"
    using assms(4) by (simp add: s1_def findUsername_users [OF handleSendMessage_users])
  have after_send: "contactDetailOf s1 V C = Some (entry (length unread + 1))"
    unfolding contactDetailOf_found [OF f1]
    using unreadCount_handleSendMessage [of uuid now s ws C V t]
    by (simp add: entry_def s1_def handleSendMessage_clients unreadCount_chatOf unread_def)
  have f2: "findUsername (db s2) C = Some uC"
    using assms(4) by (simp add: s2_def findUsername_users [OF users_readAll])
  have after_read: "contactDetailOf s2 V C = Some (entry 0)"
    if "distinct (map msg_id (chatOf (db s) (getChatKey V C)))"
    unfolding contactDetailOf_found [OF f2]
    using unreadCount_readAll [OF that]
    by (simp add: entry_def s2_def clients_readAll unread_def)
  show ?thesis
    unfolding Let_def unread_def [symmetric] entry_def [symmetric] s1_def [symmetric]
      s2_def [symmetric]
    using now mem push after_send after_read by blast
qed


theorem unread_count_reported_witness:
  "contactDetailOf demoState ''BBBBBB'' ''AAAAAA'' =
     Some \<lparr> cd_username = Some ''alice'', cd_userCode = ''AAAAAA'', cd_isOnline = True,
            cd_unreadCount = 1 \<rparr>
   \<and> sendContactListUpdate demoState ''BBBBBB'' =
     [Send (Conn 2) (Envelope ''contactList'' (PContacts
        [\<lparr> cd_username = Some ''alice'', cd_userCode = ''AAAAAA'', cd_isOnline = True,
           cd_unreadCount = 1 \<rparr>]))]
   \<and> contactDetailOf (fst (handleSendMessage ''m2'' ''t2'' demoState (Conn 1) ''AAAAAA'' ''BBBBBB'' ''hi''))
        ''BBBBBB'' ''AAAAAA'' =
     Some \<lparr> cd_username = Some ''alice'', cd_userCode = ''AAAAAA'', cd_isOnline = True,
            cd_unreadCount = 2 \<rparr>
   \<and> contactDetailOf (fst (handleReadMessage demoState ''BBBBBB'' ''m1'' ''AAAAAA''))
        ''BBBBBB'' ''AAAAAA'' =
     Some \<lparr> cd_username = Some ''alice'', cd_userCode = ''AAAAAA'', cd_isOnline = True,
            cd_unreadCount = 0 \<rparr>"
proof -
  define bob where
    "bob = \<lparr> password = ''pw2'', userCode = ''BBBBBB'', contacts = [''AAAAAA''] \<rparr>"
  have fb: "findUsername (db demoState) ''BBBBBB'' = Some ''bob''"
    by (simp add: findUsername_def demoState_def)
  have ub: "map_of (users (db demoState)) ''bob'' = Some bob"
    by (simp add: demoState_def bob_def)
  have mem: "''AAAAAA'' \<in> set (contacts bob)" by (simp add: bob_def)
  have fa: "findUsername (db demoState) ''AAAAAA'' = Some ''alice''"
    by (simp add: findUsername_def demoState_def)
  have chat: "chatOf (db demoState) (getChatKey ''BBBBBB'' ''AAAAAA'') =
      [\<lparr> msg_id = ''m1'', sender = ''AAAAAA'', receiver = ''BBBBBB'',
         msg_text = ''hello'', timestamp = ''t1'', read = False \<rparr>]"
    by (simp add: chatOf_def getChatKey_def demoState_def)
  have online: "map_of (clients demoState) ''AAAAAA'' = Some (Conn 1)"
    "map_of (clients demoState) ''BBBBBB'' = Some (Conn 2)"
    by (simp_all add: demoState_def)
  note T = unread_count_reported [OF fb ub mem fa, of "''m2''" "''t2''" "Conn 1" "''hi''",
      unfolded Let_def chat]
  have one: "List.map_filter (contactDetailOf demoState ''BBBBBB'') (contacts bob) =
      [\<lparr> cd_username = Some ''alice'', cd_userCode = ''AAAAAA'', cd_isOnline = True,
         cd_unreadCount = 1 \<rparr>]"
    using T by (simp add: bob_def List.map_filter_def online)
  from T show ?thesis
    by (simp add: online one)
qed

section \<open>Closing a connection\<close>

text \<open>
  C6 says that a close removes every code whose registry entry points at the closed
  socket. The loop in the close handler stops at the first such entry. After two logins
  over one socket the registry holds two codes for it, and the close of that socket
  removes only the first: the second account stays online with no live connection.
\<close>

theorem close_leaves_second_binding:
  "map_option (\<lambda>r. clients (fst r)) (run initialState twoLoginsOneSocket) =
     Some [(''4FZYO8'', Conn 1), (''9X2K7Q'', Conn 1)]
   \<and> map_option (\<lambda>r. clients (fst r)) (run initialState (twoLoginsOneSocket @ [Close (Conn 1)])) =
     Some [(''9X2K7Q'', Conn 1)]"
  by code_simp

section \<open>Signing up\<close>

text \<open>
  C5 says that a signup with a username that no account has allocates a code of six
  characters. Two inputs on the empty database show otherwise. When
  \<open>Math.random()\<close> returns 0.5, whose radix-36 rendering is "0.i", \<open>substring(2, 8)\<close>
  has only one character to take and the account is created with the code "I". And the
  username "constructor", which no account has, is refused as already existing, because
  \<open>db.users["constructor"]\<close> is the inherited \<open>Object\<close> function.
\<close>

theorem signup_short_code_and_inherited_name:
  "handleSignup (\<lambda>i. ''0.i'') initialState (Conn 0) ''alice'' ''pw1'' =
     Some (\<lparr> db = \<lparr> users = [(''alice'', \<lparr> password = ''pw1'', userCode = ''I'', contacts = [] \<rparr>)],
                     chats = [] \<rparr>,
              clients = [] \<rparr>,
           [Persist \<lparr> users = [(''alice'', \<lparr> password = ''pw1'', userCode = ''I'', contacts = [] \<rparr>)],
                      chats = [] \<rparr>,
            Send (Conn 0) (Envelope ''signupSuccess'' (PSignup ''I''))])
   \<and> length ''I'' \<noteq> 6
   \<and> map_of (users (db initialState)) ''constructor'' = None
   \<and> handleSignup (\<lambda>i. ''0.4fzyo82mvyr'') initialState (Conn 0) ''constructor'' ''pw1'' =
     Some (initialState, [Send (Conn 0) (Envelope ''error'' (PError ''Username already exists.''))])"
  by code_simp

theorem signup_short_code_and_inherited_name_witness:
  "map_option (\<lambda>r. map (\<lambda>(name, usr). length (userCode usr)) (users (db (fst r))))
     (handleSignup (\<lambda>i. ''0.i'') initialState (Conn 0) ''alice'' ''pw1'') = Some [1]
   \<and> map_option snd (handleSignup (\<lambda>i. ''0.4fzyo82mvyr'') initialState (Conn 0) ''constructor'' ''pw1'') =
     Some [Send (Conn 0) (Envelope ''error'' (PError ''Username already exists.''))]"
  using signup_short_code_and_inherited_name by simp

section \<open>Signing up: what holds\<close>

lemma length_generated_code: "length (toUpperCase (substring 2 8 str)) \<le> 6"
  by (simp add: toUpperCase_def substring_def)

lemma generateUserCode_loop_result:
  "generateUserCode_loop rnd existingCodes i = Some code \<Longrightarrow>
     code \<notin> set existingCodes \<and> (\<exists>j\<ge>i. code = toUpperCase (substring 2 8 (rnd j)))"
proof (induction rule: generateUserCode_loop.raw_induct [rotated 1, consumes 1, case_names step])
  case (step loop rnd ex i code)
  show ?case
  proof (cases "toUpperCase (substring 2 8 (rnd i)) \<in> set ex")
    case True
    with step.hyps have "loop rnd ex (Suc i) = Some code" by (simp add: Let_def)
    from step.IH [OF this] obtain j
      where "code \<notin> set ex" "Suc i \<le> j" "code = toUpperCase (substring 2 8 (rnd j))"
      by blast
    then have "code \<notin> set ex" "i \<le> j" "code = toUpperCase (substring 2 8 (rnd j))"
      by simp_all
    then show ?thesis by blast
  next
    case False
    with step.hyps have "code = toUpperCase (substring 2 8 (rnd i))" by (simp add: Let_def)
    with False show ?thesis by blast
  qed
qed

lemma generateUserCode_loop_returns:
  assumes "toUpperCase (substring 2 8 (rnd k)) \<notin> set existingCodes" and "i \<le> k"
  shows "\<exists>code. generateUserCode_loop rnd existingCodes i = Some code"
  using assms(2)
proof (induction "k - i" arbitrary: i)
  case 0
  then have "i = k" by simp
  with assms(1) show ?case
    by (subst generateUserCode_loop.simps) (simp add: Let_def)
next
  case (Suc n)
  then have "n = k - Suc i" "Suc i \<le> k" by simp_all
  from Suc.hyps(1) [OF this] obtain code
    where "generateUserCode_loop rnd existingCodes (Suc i) = Some code" by blast
  then show ?case
    by (subst generateUserCode_loop.simps) (simp add: Let_def)
qed

lemma handleSignup_existing:
  "map_of (users (db s)) username = Some usr \<Longrightarrow>
     handleSignup rnd s ws username pw =
       Some (s, [Send ws (Envelope ''error'' (PError ''Username already exists.''))])"
  by (simp add: handleSignup_def errorReply_def)

lemma handleSignup_new:
  assumes "map_of (users (db s)) username = None" and "username \<notin> set objectPrototypeKeys"
    and "generateUserCode rnd (db s) = Some code"
  shows "\<exists>s'. handleSignup rnd s ws username pw =
            Some (s', [Persist (db s'), Send ws (Envelope ''signupSuccess'' (PSignup code))])
          \<and> map_of (users (db s')) =
              (map_of (users (db s)))(username \<mapsto> \<lparr> password = pw, userCode = code, contacts = [] \<rparr>)
          \<and> chats (db s') = chats (db s) \<and> clients s' = clients s
          \<and> length code \<le> 6
          \<and> code \<notin> set (map (\<lambda>(name, usr). userCode usr) (users (db s)))"
proof -
  from assms(3) have loop:
    "generateUserCode_loop rnd (map (\<lambda>(name, usr). userCode usr) (users (db s))) 0 = Some code"
    by (simp add: generateUserCode_def)
  from generateUserCode_loop_result [OF loop]
  have fresh: "code \<notin> set (map (\<lambda>(name, usr). userCode usr) (users (db s)))"
    and "\<exists>j. code = toUpperCase (substring 2 8 (rnd j))" by blast+
  then have len: "length code \<le> 6"
    using length_generated_code by blast
  show ?thesis
    using assms fresh len by (simp add: handleSignup_def Let_def map_of_setProperty)
qed

section \<open>Closing a connection: what holds\<close>

lemma find_socket_None:
  "ws \<notin> snd ` set cs \<Longrightarrow> List.find (\<lambda>(code, clientWs). clientWs = ws) cs = None"
  by (force simp: find_None_iff)

lemma find_socket_Some:
  "List.find (\<lambda>(code, clientWs). clientWs = ws) cs = Some (c, w) \<Longrightarrow> (c, ws) \<in> set cs \<and> w = ws"
  by (induction cs) (auto split: if_splits)

text \<open>A close of a socket that no registry entry points at (a superseded one) does nothing.\<close>

lemma onClose_stale: "ws \<notin> snd ` set (clients s) \<Longrightarrow> onClose s ws = (s, [])"
  by (simp add: onClose_def find_socket_None)

text \<open>
  The registry is a \<open>Map\<close>, so its keys are distinct; a close then never removes the
  binding of a code to another socket, and it removes the first code bound to the closed
  socket.
\<close>

lemma onClose_keeps_other:
  assumes "distinct (map fst (clients s))" and "map_of (clients s) code = Some w" and "w \<noteq> ws"
  shows "map_of (clients (fst (onClose s ws))) code = Some w"
proof (cases "List.find (\<lambda>(code, clientWs). clientWs = ws) (clients s)")
  case None
  with assms show ?thesis by (simp add: onClose_def)
next
  case (Some e)
  obtain c w' where e: "e = (c, w')" by (cases e)
  from find_socket_Some [OF Some [unfolded e]] assms(1)
  have "map_of (clients s) c = Some ws" by simp
  with assms(2,3) have "c \<noteq> code" by auto
  with Some e assms show ?thesis
    by (simp add: onClose_def Let_def delete_conv')
qed

lemma onClose_removes_first:
  assumes "List.find (\<lambda>(code, clientWs). clientWs = ws) (clients s) = Some (c, w)"
  shows "map_of (clients (fst (onClose s ws))) c = None
       \<and> snd (onClose s ws) =
           broadcastOnlineStatus (s\<lparr> clients := AList.delete c (clients s) \<rparr>) c False"
  using assms by (simp add: onClose_def Let_def delete_conv')

text \<open>When no two codes share a socket, nothing points at the closed socket afterwards.\<close>

lemma onClose_removes_all_when_sockets_distinct:
  assumes "distinct (map snd (clients s))"
  shows "ws \<notin> snd ` set (clients (fst (onClose s ws)))"
proof (cases "List.find (\<lambda>(code, clientWs). clientWs = ws) (clients s)")
  case None
  then have "ws \<notin> snd ` set (clients s)"
    by (force simp: find_None_iff)
  with None show ?thesis by (simp add: onClose_def)
next
  case (Some e)
  obtain c w' where e: "e = (c, w')" by (cases e)
  from find_socket_Some [OF Some [unfolded e]] have mem: "(c, ws) \<in> set (clients s)" by simp
  have "c' = c" if "(c', ws) \<in> set (clients s)" for c'
    using that mem assms by (metis distinct_map fst_conv inj_onD snd_conv)
  then have "ws \<notin> snd ` set (AList.delete c (clients s))"
    by (force simp: AList.delete_eq)
  with Some e show ?thesis by (simp add: onClose_def Let_def)
qed

section \<open>Message ids along a run\<close>



















section \<open>Sending a message: the stored message and its key\<close>




end
